theory Spec2Isabelle
  imports Main "HOL-Library.Word"
begin

unbundle bit_operations_syntax

section \<open>Length-prefixed record framing (package recio)\<close>

text \<open>
  The package wraps an \<^verbatim>\<open>io.Writer\<close> and an \<^verbatim>\<open>io.Reader\<close>. Every record on the
  wire is a 4-byte little-endian length followed by the payload. The two methods of the
  package, \<^verbatim>\<open>recordWriter.Write\<close> and \<^verbatim>\<open>recordReader.Read\<close>, are embedded below
  together with the routines of Go's standard library they call
  (\<^verbatim>\<open>binary.Write\<close>, \<^verbatim>\<open>binary.Read\<close>, \<^verbatim>\<open>io.ReadFull\<close>, \<^verbatim>\<open>io.CopyN\<close> into
  \<^verbatim>\<open>io.Discard\<close>, \<^verbatim>\<open>io.LimitedReader\<close>) and with the two in-memory streams the
  package's tests use (\<^verbatim>\<open>bytes.Buffer\<close> as sink, \<^verbatim>\<open>bytes.Reader\<close> as source).
\<close>

subsection \<open>Data model\<close>

type_synonym byte = "8 word"
type_synonym uint32 = "32 word"

text \<open>
  Error values. \<open>EOF\<close> and \<open>ErrUnexpectedEOF\<close> are the two sentinels of package io,
  \<open>ErrTargetBufferTooSmall\<close> is the package's own sentinel, \<open>IOError k\<close> stands for any
  other error value an underlying stream reports, and \<open>SkipError e\<close> is the value built by
  \<^verbatim>\<open>fmt.Errorf("error skipping overlong message: %w", e)\<close>, which wraps \<open>e\<close>.
\<close>

datatype error =
    EOF
  | ErrUnexpectedEOF
  | ErrTargetBufferTooSmall
  | IOError nat
  | SkipError error

text \<open>\<^verbatim>\<open>errors.Is\<close>: equality with the target somewhere along the chain of wrapped errors.\<close>

fun errors_Is :: "error \<Rightarrow> error \<Rightarrow> bool" where
  "errors_Is (SkipError e) target = (SkipError e = target \<or> errors_Is e target)"
| "errors_Is e target = (e = target)"

text \<open>
  An \<^verbatim>\<open>io.Reader\<close> over a state \<open>'s\<close>: \<open>rd s k\<close> is one call \<^verbatim>\<open>Read(p)\<close> with
  \<^verbatim>\<open>len(p) = k\<close>. It returns the bytes it stored at the front of \<open>p\<close> (their number is
  the count \<open>n\<close> of the Go call), the error, and the state of the source afterwards.

  An \<^verbatim>\<open>io.Writer\<close> over a state \<open>'w\<close>: \<open>wr w p\<close> is one call \<^verbatim>\<open>Write(p)\<close>; it returns
  the count, the error and the state of the sink afterwards.
\<close>

type_synonym 's reader = "'s \<Rightarrow> nat \<Rightarrow> byte list \<times> error option \<times> 's"
type_synonym 'w writer = "'w \<Rightarrow> byte list \<Rightarrow> nat \<times> error option \<times> 'w"

subsection \<open>encoding/binary, little endian\<close>

text \<open>
  \<^verbatim>\<open>binary.LittleEndian.PutUint32\<close>:
  \<^verbatim>\<open>b[0] = byte(v); b[1] = byte(v >> 8); b[2] = byte(v >> 16); b[3] = byte(v >> 24)\<close>.
\<close>

definition PutUint32 :: "uint32 \<Rightarrow> byte list" where
  "PutUint32 v = [ucast v, ucast (drop_bit 8 v), ucast (drop_bit 16 v), ucast (drop_bit 24 v)]"

text \<open>
  \<^verbatim>\<open>binary.LittleEndian.Uint32\<close>:
  \<^verbatim>\<open>uint32(b[0]) | uint32(b[1])<<8 | uint32(b[2])<<16 | uint32(b[3])<<24\<close>.
  The Go function panics on a slice shorter than 4 bytes; \<^verbatim>\<open>binary.Read\<close> only calls
  it on the 4 bytes that \<^verbatim>\<open>io.ReadFull\<close> has filled, so the last equation is never used.
\<close>

fun Uint32 :: "byte list \<Rightarrow> uint32" where
  "Uint32 (b0 # b1 # b2 # b3 # bs) =
     (ucast b0 OR push_bit 8 (ucast b1) OR push_bit 16 (ucast b2) OR push_bit 24 (ucast b3))"
| "Uint32 bs = 0"

text \<open>
  \<^verbatim>\<open>binary.Write(w, binary.LittleEndian, l)\<close> for a \<^verbatim>\<open>uint32\<close>: the fast path encodes
  the value into 4 bytes and hands them to the sink in one \<^verbatim>\<open>Write\<close> call, whose error
  it returns (the count is dropped).
\<close>

definition binary_Write :: "'w writer \<Rightarrow> 'w \<Rightarrow> uint32 \<Rightarrow> error option \<times> 'w" where
  "binary_Write wr w l = (case wr w (PutUint32 l) of (n, err, w') \<Rightarrow> (err, w'))"

subsection \<open>io.ReadFull and binary.Read\<close>

text \<open>
  \<^verbatim>\<open>io.ReadAtLeast(r, buf, min)\<close> with \<^verbatim>\<open>min = len(buf)\<close>, which is \<^verbatim>\<open>io.ReadFull\<close>:
  \<^verbatim>\<open>for n < min && err == nil { nn, err = r.Read(buf[n:]); n += nn }\<close>.
  The loop does not end on a source that keeps answering \<open>(0, nil)\<close>, so it is a partial
  function: \<open>None\<close> means that the call never returns.
\<close>

partial_function (option) ReadFull_loop ::
  "'s reader \<Rightarrow> nat \<Rightarrow> byte list \<Rightarrow> error option \<Rightarrow> 's \<Rightarrow> (byte list \<times> error option \<times> 's) option"
where
  "ReadFull_loop rd m buf err s =
     (if length buf < m \<and> err = None
      then ReadFull_loop rd m (buf @ fst (rd s (m - length buf)))
             (fst (snd (rd s (m - length buf)))) (snd (snd (rd s (m - length buf))))
      else Some (buf, err, s))"

text \<open>
  After the loop: \<^verbatim>\<open>if n >= min { err = nil } else if n > 0 && err == EOF
  { err = ErrUnexpectedEOF }\<close>.
\<close>

definition ReadFull :: "'s reader \<Rightarrow> nat \<Rightarrow> 's \<Rightarrow> (byte list \<times> error option \<times> 's) option" where
  "ReadFull rd m s =
     (case ReadFull_loop rd m [] None s of
        None \<Rightarrow> None
      | Some (buf, err, s') \<Rightarrow>
          Some (buf,
                (if m \<le> length buf then None
                 else if 0 < length buf \<and> err = Some EOF then Some ErrUnexpectedEOF
                 else err),
                s'))"

text \<open>
  \<^verbatim>\<open>binary.Read(r, binary.LittleEndian, &length)\<close> for a \<^verbatim>\<open>*uint32\<close>: read 4 bytes with
  \<^verbatim>\<open>io.ReadFull\<close>, return its error if there is one, else decode.
\<close>

definition binary_Read :: "'s reader \<Rightarrow> 's \<Rightarrow> ((error + uint32) \<times> 's) option" where
  "binary_Read rd s =
     (case ReadFull rd 4 s of
        None \<Rightarrow> None
      | Some (bs, Some e, s') \<Rightarrow> Some (Inl e, s')
      | Some (bs, None, s') \<Rightarrow> Some (Inr (Uint32 bs), s'))"

subsection \<open>io.CopyN into io.Discard\<close>

text \<open>
  \<^verbatim>\<open>io.LimitedReader{R, N}.Read(p)\<close>:
  \<^verbatim>\<open>if l.N <= 0 { return 0, EOF }; if int64(len(p)) > l.N { p = p[0:l.N] };
  n, err = l.R.Read(p); l.N -= int64(n)\<close>. The state is the state of \<open>R\<close> and \<open>N\<close>.
\<close>

definition LimitedReader_Read :: "'s reader \<Rightarrow> ('s \<times> nat) reader" where
  "LimitedReader_Read rd = (\<lambda>(s, N) k.
     if N = 0 then ([], Some EOF, (s, N))
     else (case rd s (min k N) of (bs, err, s') \<Rightarrow> (bs, err, (s', N - length bs))))"

text \<open>
  \<^verbatim>\<open>io.Copy(io.Discard, src)\<close> ends in \<^verbatim>\<open>discard.ReadFrom(src)\<close>, which reads into a
  scratch buffer of 8192 bytes until the source reports an error, and turns \<open>EOF\<close> into
  success:
  \<^verbatim>\<open>for { readSize, err = r.Read(*bufp); n += int64(readSize);
  if err != nil { if err == EOF { return n, nil }; return } }\<close>.
\<close>

partial_function (option) discard_ReadFrom ::
  "'s reader \<Rightarrow> nat \<Rightarrow> 's \<Rightarrow> (nat \<times> error option \<times> 's) option"
where
  "discard_ReadFrom rd n s =
     (case fst (snd (rd s 8192)) of
        None \<Rightarrow> discard_ReadFrom rd (n + length (fst (rd s 8192))) (snd (snd (rd s 8192)))
      | Some e \<Rightarrow>
          Some (n + length (fst (rd s 8192)),
                (if e = EOF then None else Some e),
                snd (snd (rd s 8192))))"

text \<open>
  \<^verbatim>\<open>io.CopyN(io.Discard, src, n)\<close>:
  \<^verbatim>\<open>written, err = Copy(dst, LimitReader(src, n)); if written == n { return n, nil };
  if written < n && err == nil { err = EOF }; return\<close>.
\<close>

definition CopyN_Discard :: "'s reader \<Rightarrow> 's \<Rightarrow> nat \<Rightarrow> (nat \<times> error option \<times> 's) option" where
  "CopyN_Discard rd s n =
     (case discard_ReadFrom (LimitedReader_Read rd) 0 (s, n) of
        None \<Rightarrow> None
      | Some (written, err, (s', N')) \<Rightarrow>
          Some (if written = n then (n, None, s')
                else if written < n \<and> err = None then (written, Some EOF, s')
                else (written, err, s')))"

subsection \<open>recordWriter.Write and recordReader.Read\<close>

text \<open>
  \<^verbatim>\<open>l := uint32(len(p)); err := binary.Write(w.writer, binary.LittleEndian, l);
  if err != nil { return 0, err }; return w.writer.Write(p)\<close>.
  The conversion \<^verbatim>\<open>uint32(len(p))\<close> keeps the low 32 bits of the length.
\<close>

definition Write :: "'w writer \<Rightarrow> 'w \<Rightarrow> byte list \<Rightarrow> nat \<times> error option \<times> 'w" where
  "Write wr w p =
     (let l = (of_nat (length p) :: uint32) in
      case binary_Write wr w l of
        (Some e, w1) \<Rightarrow> (0, Some e, w1)
      | (None, w1) \<Rightarrow> wr w1 p)"

text \<open>
  \<open>Read rd p s\<close> is one call of \<^verbatim>\<open>recordReader.Read(p)\<close> on the source \<open>rd\<close> in state
  \<open>s\<close>, with the caller's buffer holding \<open>p\<close>. The result is the count, the error, the
  contents of the caller's buffer afterwards and the state of the source; \<open>None\<close> means
  that the call does not return.
\<close>

definition Read ::
  "'s reader \<Rightarrow> byte list \<Rightarrow> 's \<Rightarrow> (nat \<times> error option \<times> byte list \<times> 's) option"
where
  "Read rd p s =
     (case binary_Read rd s of
        None \<Rightarrow> None
      | Some (Inl e, s1) \<Rightarrow> Some (0, Some e, p, s1)
      | Some (Inr len, s1) \<Rightarrow>
          if (of_nat (length p) :: uint32) < len
          then (case CopyN_Discard rd s1 (unat len) of
                  None \<Rightarrow> None
                | Some (written, Some e, s2) \<Rightarrow> Some (0, Some (SkipError e), p, s2)
                | Some (written, None, s2) \<Rightarrow> Some (0, Some ErrTargetBufferTooSmall, p, s2))
          else (case rd s1 (unat len) of
                  (bs, err, s2) \<Rightarrow> Some (length bs, err, bs @ drop (length bs) p, s2)))"

subsection \<open>The in-memory streams of the tests\<close>

text \<open>\<^verbatim>\<open>bytes.Buffer.Write\<close> appends the whole slice and reports no error.\<close>

definition bytes_Buffer_Write :: "byte list writer" where
  "bytes_Buffer_Write w p = (length p, None, w @ p)"

text \<open>
  \<^verbatim>\<open>bytes.Reader.Read\<close>; the state is the unread rest \<^verbatim>\<open>r.s[r.i:]\<close>:
  \<^verbatim>\<open>if r.i >= int64(len(r.s)) { return 0, io.EOF }; n = copy(b, r.s[r.i:]); r.i += int64(n)\<close>.
  At the end of the data it reports \<open>EOF\<close> for every request, an empty one included
  (since Go 1.7; the package needs Go 1.16 for \<^verbatim>\<open>io.Discard\<close>). Before the end, an empty
  request is answered with \<open>(0, nil)\<close>.
\<close>

definition bytes_Reader_Read :: "byte list reader" where
  "bytes_Reader_Read s k = (if s = [] then ([], Some EOF, s) else (take k s, None, drop k s))"


text \<open>
  A source on a failing medium: it hands out its data as \<^verbatim>\<open>bytes.Reader\<close> does and,
  once the data is used up, reports the I/O error \<open>IOError k\<close> instead of \<open>EOF\<close>. This is
  how \<^verbatim>\<open>io.MultiReader(bytes.NewReader(data), iotest.ErrReader(err))\<close> answers.
\<close>

definition failing_Reader_Read :: "nat \<Rightarrow> byte list reader" where
  "failing_Reader_Read k s n =
     (if s = [] then ([], Some (IOError k), s) else (take n s, None, drop n s))"

text \<open>
  A sink with room for \<open>cap\<close> bytes (a full disk): a write that does not fit stores what
  fits and reports the short count with the I/O error \<open>IOError k\<close>.
\<close>

definition full_Write :: "nat \<Rightarrow> nat \<Rightarrow> byte list writer" where
  "full_Write cap k w p =
     (if length w + length p \<le> cap then (length p, None, w @ p)
      else (cap - length w, Some (IOError k), w @ take (cap - length w) p))"

subsection \<open>Sequences of calls\<close>




declare ReadFull_loop.simps [code]
declare discard_ReadFrom.simps [code]

section \<open>Properties\<close>

subsection \<open>The length prefix\<close>

lemma length_PutUint32: "length (PutUint32 v) = 4"
  by (simp add: PutUint32_def)

lemma Uint32_PutUint32_append: "Uint32 (PutUint32 v @ rest) = v"
  unfolding PutUint32_def
  apply simp
  apply (rule bit_word_eqI)
  subgoal for n
    by (cases "n < 8"; cases "n < 16"; cases "n < 24") (auto simp add: bit_simps)
  done

lemma Uint32_PutUint32: "Uint32 (PutUint32 v) = v"
  using Uint32_PutUint32_append [of v "[]"] by simp

lemma uint32_len_less: "((of_nat n :: uint32) < L) = (n mod 2 ^ 32 < unat L)"
  by (simp add: word_less_nat_alt unat_of_nat)

lemma unat_uint32_len: "n < 2 ^ 32 \<Longrightarrow> unat (of_nat n :: uint32) = n"
  by (simp add: unat_of_nat)

lemma PutUint32_Uint32: "PutUint32 (Uint32 (b0 # b1 # b2 # b3 # bs)) = [b0, b1, b2, b3]"
  unfolding PutUint32_def
  apply simp
  apply (intro conjI bit_word_eqI)
     apply (auto simp add: bit_simps dest: bit_imp_le_length)
  done

lemma frame_split: "4 \<le> length s \<Longrightarrow> s = PutUint32 (Uint32 s) @ drop 4 s"
proof -
  assume "4 \<le> length s"
  then obtain b0 b1 b2 b3 bs where "s = b0 # b1 # b2 # b3 # bs"
    by (cases s; cases "tl s"; cases "tl (tl s)"; cases "tl (tl (tl s))") auto
  then show ?thesis by (simp add: PutUint32_Uint32 del: Uint32.simps)
qed

subsection \<open>The library loops over a bytes.Reader\<close>

lemma ReadFull_loop_done:
  "\<not> (length buf < m \<and> err = None) \<Longrightarrow> ReadFull_loop rd m buf err s = Some (buf, err, s)"
  by (subst ReadFull_loop.simps) auto

lemma ReadFull_loop_step:
  "length buf < m \<Longrightarrow> rd s (m - length buf) = (bs, err', s') \<Longrightarrow>
   ReadFull_loop rd m buf None s = ReadFull_loop rd m (buf @ bs) err' s'"
  by (subst ReadFull_loop.simps) simp

text \<open>
  \<^verbatim>\<open>io.ReadFull\<close> of 4 bytes from a \<^verbatim>\<open>bytes.Reader\<close> returns in every case: \<open>EOF\<close> when
  nothing is left, \<open>ErrUnexpectedEOF\<close> when 1 to 3 bytes are left, the 4 bytes otherwise.
\<close>

lemma ReadFull_bytes_Reader:
  "ReadFull bytes_Reader_Read 4 s =
     Some (if s = [] then ([], Some EOF, [])
           else if length s < 4 then (s, Some ErrUnexpectedEOF, [])
           else (take 4 s, None, drop 4 s))"
proof (cases "s = []")
  case True
  have "ReadFull_loop bytes_Reader_Read 4 [] None [] = Some ([], Some EOF, [])"
    by (subst ReadFull_loop_step [where bs = "[]" and err' = "Some EOF" and s' = "[]"])
       (simp_all add: bytes_Reader_Read_def ReadFull_loop_done)
  with True show ?thesis by (simp add: ReadFull_def)
next
  case False
  show ?thesis
  proof (cases "length s < 4")
    case True
    have "ReadFull_loop bytes_Reader_Read 4 [] None s = ReadFull_loop bytes_Reader_Read 4 s None []"
      using False True
      by (subst ReadFull_loop_step [where bs = s and err' = None and s' = "[]"])
         (simp_all add: bytes_Reader_Read_def)
    also have "\<dots> = ReadFull_loop bytes_Reader_Read 4 s (Some EOF) []"
      using True
      by (subst ReadFull_loop_step [where bs = "[]" and err' = "Some EOF" and s' = "[]"])
         (simp_all add: bytes_Reader_Read_def)
    also have "\<dots> = Some (s, Some EOF, [])"
      by (simp add: ReadFull_loop_done)
    finally show ?thesis using False True by (simp add: ReadFull_def)
  next
    case ge: False
    have "ReadFull_loop bytes_Reader_Read 4 [] None s
          = ReadFull_loop bytes_Reader_Read 4 (take 4 s) None (drop 4 s)"
      using False
      by (subst ReadFull_loop_step [where bs = "take 4 s" and err' = None and s' = "drop 4 s"])
         (simp_all add: bytes_Reader_Read_def)
    also have "\<dots> = Some (take 4 s, None, drop 4 s)"
      using ge by (simp add: ReadFull_loop_done)
    finally show ?thesis using False ge by (simp add: ReadFull_def)
  qed
qed

text \<open>
  Discarding up to \<open>N\<close> bytes of a \<^verbatim>\<open>bytes.Reader\<close> through the \<^verbatim>\<open>LimitedReader\<close>
  returns, having dropped \<open>N\<close> bytes or all that were left.
\<close>

lemma discard_bytes_Reader:
  "discard_ReadFrom (LimitedReader_Read bytes_Reader_Read) n (s, N) =
     Some (n + min N (length s), None, (drop N s, N - min N (length s)))"
proof (induction N arbitrary: n s rule: less_induct)
  case (less N)
  show ?case
  proof (cases "N = 0 \<or> s = []")
    case True
    then show ?thesis
      by (subst discard_ReadFrom.simps)
         (auto simp add: LimitedReader_Read_def bytes_Reader_Read_def)
  next
    case False
    define k where "k = min 8192 N"
    have k: "0 < k" "k \<le> N" using False by (simp_all add: k_def)
    have step: "LimitedReader_Read bytes_Reader_Read (s, N) 8192
                = (take k s, None, (drop k s, N - min k (length s)))"
      using False by (simp add: LimitedReader_Read_def bytes_Reader_Read_def k_def min.commute)
    have lt: "N - min k (length s) < N"
      using False k by (cases s) auto
    have "discard_ReadFrom (LimitedReader_Read bytes_Reader_Read) n (s, N)
          = discard_ReadFrom (LimitedReader_Read bytes_Reader_Read) (n + min k (length s))
              (drop k s, N - min k (length s))"
      by (subst discard_ReadFrom.simps) (simp add: step min.commute)
    also have "\<dots> = Some (n + min k (length s) + min (N - min k (length s)) (length (drop k s)),
                 None,
                 (drop (N - min k (length s)) (drop k s),
                  N - min k (length s) - min (N - min k (length s)) (length (drop k s))))"
      by (rule less.IH [OF lt])
    also have "\<dots> = Some (n + min N (length s), None, (drop N s, N - min N (length s)))"
      using k by (auto simp add: min_def)
    finally show ?thesis .
  qed
qed

lemma CopyN_Discard_bytes_Reader:
  "CopyN_Discard bytes_Reader_Read s N =
     Some (if N \<le> length s then (N, None, drop N s) else (length s, Some EOF, []))"
  by (simp add: CopyN_Discard_def discard_bytes_Reader min_def)

subsection \<open>One Read over a bytes.Reader\<close>

lemma binary_Read_bytes_Reader_frame:
  "binary_Read bytes_Reader_Read (PutUint32 L @ t) = Some (Inr L, t)"
proof -
  have "PutUint32 L @ t \<noteq> []" by (simp add: PutUint32_def)
  then show ?thesis
    by (simp add: binary_Read_def ReadFull_bytes_Reader length_PutUint32 Uint32_PutUint32)
qed

lemma Read_bytes_Reader_frame:
  "Read bytes_Reader_Read p (PutUint32 L @ t) =
     Some (if length p mod 2 ^ 32 < unat L
           then (if unat L \<le> length t
                 then (0, Some ErrTargetBufferTooSmall, p, drop (unat L) t)
                 else (0, Some (SkipError EOF), p, []))
           else (if t = [] then (0, Some EOF, p, [])
                 else (min (unat L) (length t), None,
                       take (unat L) t @ drop (min (unat L) (length t)) p,
                       drop (unat L) t)))"
  by (simp add: Read_def binary_Read_bytes_Reader_frame uint32_len_less
        CopyN_Discard_bytes_Reader bytes_Reader_Read_def min.commute)

lemma Read_bytes_Reader_short:
  "length s < 4 \<Longrightarrow>
   Read bytes_Reader_Read p s =
     Some (0, Some (if s = [] then EOF else ErrUnexpectedEOF), p, [])"
  by (simp add: Read_def binary_Read_def ReadFull_bytes_Reader)

text \<open>
  One \<^verbatim>\<open>Read\<close> on any stream that holds at least the 4 bytes of a prefix, in terms of
  the decoded length.
\<close>

lemma Read_bytes_Reader:
  assumes "4 \<le> length s"
  shows "Read bytes_Reader_Read p s =
     Some (if length p mod 2 ^ 32 < unat (Uint32 s)
           then (if unat (Uint32 s) \<le> length s - 4
                 then (0, Some ErrTargetBufferTooSmall, p, drop (unat (Uint32 s) + 4) s)
                 else (0, Some (SkipError EOF), p, []))
           else (if length s = 4 then (0, Some EOF, p, [])
                 else (min (unat (Uint32 s)) (length s - 4), None,
                       take (unat (Uint32 s)) (drop 4 s)
                         @ drop (min (unat (Uint32 s)) (length s - 4)) p,
                       drop (unat (Uint32 s) + 4) s)))"
proof -
  have "Read bytes_Reader_Read p s = Read bytes_Reader_Read p (PutUint32 (Uint32 s) @ drop 4 s)"
    using frame_split [OF assms] by simp
  also have "\<dots> = Some (if length p mod 2 ^ 32 < unat (Uint32 s)
           then (if unat (Uint32 s) \<le> length s - 4
                 then (0, Some ErrTargetBufferTooSmall, p, drop (unat (Uint32 s) + 4) s)
                 else (0, Some (SkipError EOF), p, []))
           else (if length s = 4 then (0, Some EOF, p, [])
                 else (min (unat (Uint32 s)) (length s - 4), None,
                       take (unat (Uint32 s)) (drop 4 s)
                         @ drop (min (unat (Uint32 s)) (length s - 4)) p,
                       drop (unat (Uint32 s) + 4) s)))"
    using assms by (subst Read_bytes_Reader_frame) (auto simp add: add.commute)
  finally show ?thesis .
qed

subsection \<open>Sequences of frames over the in-memory streams\<close>





subsection \<open>Where an error of the discard comes from\<close>

text \<open>
  An error that \<^verbatim>\<open>discard.ReadFrom\<close> returns is not \<open>EOF\<close> and was reported by a
  \<^verbatim>\<open>Read\<close> of its source; an error of \<^verbatim>\<open>io.CopyN\<close> is therefore either the \<open>EOF\<close>
  it makes up when the source ran dry early, or an error that the source itself reported.
\<close>

lemma discard_ReadFrom_error:
  assumes "discard_ReadFrom rd n st = Some (m, Some e, st')"
  shows "e \<noteq> EOF \<and> (\<exists>st0 k bs. rd st0 k = (bs, Some e, st'))"
proof -
  have "fst (snd y) = Some e \<longrightarrow>
          e \<noteq> EOF \<and> (\<exists>st0 k bs. rd st0 k = (bs, Some e, snd (snd y)))"
    if "discard_ReadFrom rd n st = Some y" for y
  proof (rule discard_ReadFrom.raw_induct [OF _ that])
    fix f and rd :: "'a reader" and n s y
    assume IH: "\<And>rd n s y. f rd n s = Some y \<Longrightarrow>
                  fst (snd y) = Some e \<longrightarrow>
                  e \<noteq> EOF \<and> (\<exists>st0 k bs. rd st0 k = (bs, Some e, snd (snd y)))"
      and step: "(case fst (snd (rd s 8192)) of
                    None \<Rightarrow> f rd (n + length (fst (rd s 8192))) (snd (snd (rd s 8192)))
                  | Some e \<Rightarrow>
                      Some (n + length (fst (rd s 8192)),
                            (if e = EOF then None else Some e),
                            snd (snd (rd s 8192)))) = Some y"
    show "fst (snd y) = Some e \<longrightarrow>
            e \<noteq> EOF \<and> (\<exists>st0 k bs. rd st0 k = (bs, Some e, snd (snd y)))"
    proof (cases "fst (snd (rd s 8192))")
      case None
      with step IH show ?thesis by simp
    next
      case (Some e')
      obtain bs s' where r: "rd s 8192 = (bs, Some e', s')"
        using Some by (cases "rd s 8192") auto
      with step Some show ?thesis
        by (auto split: if_splits) blast
    qed
  qed
  with assms show ?thesis by fastforce
qed

lemma LimitedReader_Read_error:
  assumes "LimitedReader_Read rd st0 k = (bs, Some e, st')" and "e \<noteq> EOF"
  shows "\<exists>s0 k'. rd s0 k' = (bs, Some e, fst st')"
proof (cases st0)
  case (Pair s0 N)
  with assms have "rd s0 (min k N) = (bs, Some e, fst st')"
    by (auto simp add: LimitedReader_Read_def split: if_splits prod.splits)
  then show ?thesis by blast
qed

lemma CopyN_Discard_error:
  assumes "CopyN_Discard rd s n = Some (written, Some e, s2)"
  shows "(e = EOF \<and> written < n) \<or> (\<exists>s0 k bs. rd s0 k = (bs, Some e, s2))"
proof -
  obtain w err s' N' where d: "discard_ReadFrom (LimitedReader_Read rd) 0 (s, n) = Some (w, err, (s', N'))"
    using assms by (auto simp add: CopyN_Discard_def split: option.splits)
  show ?thesis
  proof (cases err)
    case None
    with assms d show ?thesis
      by (auto simp add: CopyN_Discard_def split: if_splits)
  next
    case (Some e')
    from discard_ReadFrom_error [OF d [unfolded Some]]
    obtain st0 k bs where ne: "e' \<noteq> EOF" and
      l: "LimitedReader_Read rd st0 k = (bs, Some e', (s', N'))" by blast
    from LimitedReader_Read_error [OF l ne]
    have "\<exists>s0 k bs. rd s0 k = (bs, Some e', s')" by auto
    moreover have "e = e' \<and> s2 = s'"
      using assms d Some by (auto simp add: CopyN_Discard_def split: if_splits)
    ultimately show ?thesis by blast
  qed
qed

section \<open>The claims\<close>

subsection \<open>C1: round trip\<close>




subsection \<open>C2: recovery after a buffer that is too small\<close>



subsection \<open>C3: end of stream\<close>

text \<open>
  C3. Over a \<^verbatim>\<open>bytes.Reader\<close>: when the source is at its end (nothing is left to read,
  which is where it stands behind the last complete frame of a stream), \<^verbatim>\<open>Read\<close> returns
  \<open>(0, EOF)\<close>; when 1 to 3 bytes are left, \<^verbatim>\<open>Read\<close> returns \<open>(0, ErrUnexpectedEOF)\<close>, an
  error that is not \<open>EOF\<close> for \<^verbatim>\<open>errors.Is\<close> either. The buffer is untouched in both
  cases.
\<close>

theorem Read_end_of_stream:
  "Read bytes_Reader_Read p [] = Some (0, Some EOF, p, []) \<and>
   (0 < length s \<and> length s < 4 \<longrightarrow>
      Read bytes_Reader_Read p s = Some (0, Some ErrUnexpectedEOF, p, []) \<and>
      \<not> errors_Is ErrUnexpectedEOF EOF)"
  by (simp add: Read_bytes_Reader_short)

text \<open>
  An empty stream and a stream of 3 bytes.
\<close>

theorem Read_end_of_stream_witness:
  "Read bytes_Reader_Read [0, 0] [] = Some (0, Some EOF, [0, 0], []) \<and>
   Read bytes_Reader_Read [0, 0] [1, 2, 3] = Some (0, Some ErrUnexpectedEOF, [0, 0], [])"
  using Read_end_of_stream [of "[0, 0]" "[1, 2, 3]"] by simp

subsection \<open>C4: zero-length payload\<close>

text \<open>
  C4, as amended. Over a \<^verbatim>\<open>bytes.Reader\<close>: when the prefix at the current position
  decodes to 0, \<^verbatim>\<open>Read\<close> with any buffer returns count 0, leaves the buffer as it was and
  the source just behind the prefix. It reports no error when the stream goes on behind that
  frame; when the frame is the last of the stream it reports \<open>EOF\<close>, which is what the
  source answers to the zero-length read that \<^verbatim>\<open>Read\<close> passes on.
\<close>

theorem Read_zero_length:
  "4 \<le> length s \<and> Uint32 s = 0 \<longrightarrow>
     Read bytes_Reader_Read p s
       = Some (0, (if length s = 4 then Some EOF else None), p, drop 4 s)"
  by (simp add: Read_bytes_Reader)

text \<open>
  A zero-length frame followed by another frame, and a zero-length frame alone.
\<close>

theorem Read_zero_length_witness:
  "Read bytes_Reader_Read [0] [0, 0, 0, 0, 2, 0, 0, 0, 5, 6]
     = Some (0, None, [0], [2, 0, 0, 0, 5, 6]) \<and>
   Read bytes_Reader_Read [0] [0, 0, 0, 0] = Some (0, Some EOF, [0], [])"
  using Read_zero_length [of "[0, 0, 0, 0, 2, 0, 0, 0, 5, 6]" "[0]"]
    Read_zero_length [of "[0, 0, 0, 0]" "[0]"]
  by simp

text \<open>
  C4 as stated fails on the stream that holds one zero-length frame and nothing else, read
  with a 1-byte buffer: \<^verbatim>\<open>Read\<close> reports \<open>EOF\<close>.
\<close>

theorem Read_zero_length_last_counterexample:
  "Uint32 [0, 0, 0, 0] = 0 \<and>
   Read bytes_Reader_Read [0] [0, 0, 0, 0] = Some (0, Some EOF, [0], [])"
  by code_simp

subsection \<open>C5: a stream that ends inside a payload\<close>

text \<open>
  C5, as amended. Over a \<^verbatim>\<open>bytes.Reader\<close>, let the stream hold a prefix and fewer
  payload bytes than the prefix announces. If the announced length exceeds the buffer length
  (reduced modulo \<open>2^32\<close>), \<^verbatim>\<open>Read\<close> reports the error that wraps \<open>EOF\<close>; this value is not
  \<open>EOF\<close> itself, although \<^verbatim>\<open>errors.Is\<close> finds \<open>EOF\<close> in it. Otherwise \<^verbatim>\<open>Read\<close> returns
  what the single read of the source reports: the payload bytes that are there with no
  error, or \<open>(0, EOF)\<close> when the stream ends right behind the prefix.
\<close>

theorem Read_truncated_payload:
  assumes "4 \<le> length s" and "length s - 4 < unat (Uint32 s)"
  shows "Read bytes_Reader_Read p s =
           Some (if length p mod 2 ^ 32 < unat (Uint32 s) then (0, Some (SkipError EOF), p, [])
                 else if length s = 4 then (0, Some EOF, p, [])
                 else (length s - 4, None, drop 4 s @ drop (length s - 4) p, [])) \<and>
         SkipError EOF \<noteq> EOF \<and> errors_Is (SkipError EOF) EOF"
  using assms by (simp add: Read_bytes_Reader min_def)

text \<open>
  A frame that announces 5 bytes and holds 2, read with a 2-byte buffer.
\<close>

theorem Read_truncated_payload_witness:
  "4 \<le> length [5, 0, 0, 0, 1, 2 :: byte] \<and>
   length [5, 0, 0, 0, 1, 2 :: byte] - 4 < unat (Uint32 [5, 0, 0, 0, 1, 2]) \<and>
   Read bytes_Reader_Read [0, 0] [5, 0, 0, 0, 1, 2] = Some (0, Some (SkipError EOF), [0, 0], [])"
  using Read_truncated_payload [of "[5, 0, 0, 0, 1, 2]" "[0, 0]"] by simp

text \<open>
  C5 as stated fails with a 6-byte buffer: on the frame that announces 5 bytes and holds 2,
  \<^verbatim>\<open>Read\<close> returns 2 bytes and no error; on the frame that announces 5 bytes and holds
  none, \<^verbatim>\<open>Read\<close> returns \<open>EOF\<close> itself.
\<close>

theorem Read_truncated_payload_counterexample:
  "length [5, 0, 0, 0, 1, 2 :: byte] - 4 < unat (Uint32 [5, 0, 0, 0, 1, 2]) \<and>
   Read bytes_Reader_Read [0, 0, 0, 0, 0, 0] [5, 0, 0, 0, 1, 2]
     = Some (2, None, [1, 2, 0, 0, 0, 0], []) \<and>
   Read bytes_Reader_Read [0, 0, 0, 0, 0, 0] [5, 0, 0, 0] = Some (0, Some EOF, [0, 0, 0, 0, 0, 0], [])"
  by code_simp

subsection \<open>C6: length fidelity\<close>

text \<open>
  C6. For every payload shorter than \<open>2^32\<close> bytes, whatever its content, \<^verbatim>\<open>Write\<close> on
  a \<^verbatim>\<open>bytes.Buffer\<close> appends 4 bytes that decode, as a little-endian \<^verbatim>\<open>uint32\<close>, to
  the payload's length, and then the payload; it returns the payload's length and no
  error.
\<close>

theorem Write_length_fidelity:
  assumes "length p < 2 ^ 32"
  shows "\<exists>pre. length pre = 4 \<and> unat (Uint32 pre) = length p \<and>
           Write bytes_Buffer_Write w p = (length p, None, w @ pre @ p)"
  using assms
  by (intro exI [of _ "PutUint32 (of_nat (length p))"])
     (simp add: Write_def binary_Write_def bytes_Buffer_Write_def length_PutUint32
        Uint32_PutUint32 unat_uint32_len)

text \<open>
  A payload of three bytes \<open>0xFF\<close>.
\<close>

theorem Write_length_fidelity_witness:
  "length [255, 255, 255 :: byte] < 2 ^ 32 \<and>
   (\<exists>pre. length pre = 4 \<and> unat (Uint32 pre) = length [255, 255, 255 :: byte] \<and>
      Write bytes_Buffer_Write [] [255, 255, 255]
        = (length [255, 255, 255 :: byte], None, pre @ [255, 255, 255]))"
  using Write_length_fidelity [of "[255, 255, 255]" "[]"] by simp

subsection \<open>C7: failure while writing the prefix\<close>

text \<open>
  C7. For every sink and every payload: if the sink's \<^verbatim>\<open>Write\<close> of the 4 prefix bytes
  reports an error, \<^verbatim>\<open>recordWriter.Write\<close> returns count 0 with that error, and the sink is
  in the state in which the failed write of the prefix left it: the payload was never
  handed to it.
\<close>

theorem Write_prefix_failure:
  assumes "wr w (PutUint32 (of_nat (length p))) = (n, Some e, w')"
  shows "Write wr w p = (0, Some e, w')"
  using assms by (simp add: Write_def binary_Write_def)

text \<open>
  A sink with room for 2 bytes: it takes 2 bytes of the prefix and fails.
\<close>

theorem Write_prefix_failure_witness:
  "full_Write 2 28 [] (PutUint32 (of_nat (length [1, 2, 3 :: byte]))) = (2, Some (IOError 28), [3, 0]) \<and>
   Write (full_Write 2 28) [] [1, 2, 3] = (0, Some (IOError 28), [3, 0])"
proof -
  have h: "full_Write 2 28 [] (PutUint32 (of_nat (length [1, 2, 3 :: byte])))
           = (2, Some (IOError 28), [3, 0])"
    by (simp add: full_Write_def PutUint32_def)
  from Write_prefix_failure [of "full_Write 2 28" "[]" "[1, 2, 3]" 2 "IOError 28" "[3, 0]"] h
  show ?thesis by simp
qed

subsection \<open>C8: failure while discarding\<close>

text \<open>
  C8. For every source: when the decoded length exceeds the length of the caller's buffer
  and \<^verbatim>\<open>io.CopyN\<close> into \<^verbatim>\<open>io.Discard\<close> returns an error \<open>e\<close>, \<^verbatim>\<open>Read\<close> returns count 0
  and the error that wraps \<open>e\<close>, leaves the buffer as it was and the source where the copy
  left it. The error is not the value \<open>ErrTargetBufferTooSmall\<close>, \<^verbatim>\<open>errors.Is\<close> finds
  \<open>e\<close> in it, and \<open>e\<close> is the \<open>EOF\<close> of a source that ran dry before \<open>length\<close> bytes were
  dropped or an error that a \<^verbatim>\<open>Read\<close> of the source reported.
\<close>

theorem Read_discard_failure:
  assumes "binary_Read rd s = Some (Inr len, s1)"
      and "length p < unat len"
      and "CopyN_Discard rd s1 (unat len) = Some (written, Some e, s2)"
  shows "Read rd p s = Some (0, Some (SkipError e), p, s2) \<and>
         SkipError e \<noteq> ErrTargetBufferTooSmall \<and> errors_Is (SkipError e) e \<and>
         ((e = EOF \<and> written < unat len) \<or> (\<exists>s0 k bs. rd s0 k = (bs, Some e, s2)))"
proof -
  have "unat len < 2 ^ 32" using unsigned_less [of len] by simp
  with assms(2) have "length p mod 2 ^ 32 < unat len" by simp
  then have "(of_nat (length p) :: uint32) < len" by (simp add: uint32_len_less)
  with assms(1,3) have "Read rd p s = Some (0, Some (SkipError e), p, s2)"
    by (simp add: Read_def)
  moreover have "errors_Is (SkipError e) e" by (cases e) simp_all
  ultimately show ?thesis using CopyN_Discard_error [OF assms(3)] by simp
qed

text \<open>
  A source that fails with an I/O error after 2 of the 5 announced payload bytes, and a
  \<^verbatim>\<open>bytes.Reader\<close> that is exhausted after 2 of them; the buffer has 2 bytes.
\<close>

theorem Read_discard_failure_witness:
  "binary_Read (failing_Reader_Read 5) [5, 0, 0, 0, 1, 2] = Some (Inr 5, [1, 2]) \<and>
   length [0, 0 :: byte] < unat (5 :: uint32) \<and>
   CopyN_Discard (failing_Reader_Read 5) [1, 2] (unat (5 :: uint32)) = Some (2, Some (IOError 5), []) \<and>
   Read (failing_Reader_Read 5) [0, 0] [5, 0, 0, 0, 1, 2]
     = Some (0, Some (SkipError (IOError 5)), [0, 0], []) \<and>
   binary_Read bytes_Reader_Read [5, 0, 0, 0, 1, 2] = Some (Inr 5, [1, 2]) \<and>
   CopyN_Discard bytes_Reader_Read [1, 2] (unat (5 :: uint32)) = Some (2, Some EOF, []) \<and>
   Read bytes_Reader_Read [0, 0] [5, 0, 0, 0, 1, 2] = Some (0, Some (SkipError EOF), [0, 0], [])"
proof -
  have a: "binary_Read (failing_Reader_Read 5) [5, 0, 0, 0, 1, 2] = Some (Inr 5, [1, 2])"
    by code_simp
  have b: "length [0, 0 :: byte] < unat (5 :: uint32)" by simp
  have c: "CopyN_Discard (failing_Reader_Read 5) [1, 2] (unat (5 :: uint32))
           = Some (2, Some (IOError 5), [])"
    by code_simp
  have a': "binary_Read bytes_Reader_Read [5, 0, 0, 0, 1, 2] = Some (Inr 5, [1, 2])"
    by code_simp
  have c': "CopyN_Discard bytes_Reader_Read [1, 2] (unat (5 :: uint32)) = Some (2, Some EOF, [])"
    by (simp add: CopyN_Discard_bytes_Reader)
  from Read_discard_failure [OF a b c] Read_discard_failure [OF a' b c'] a b c a' c'
  show ?thesis by simp
qed

subsection \<open>C9: the payload is delivered by a single read\<close>




subsection \<open>C10: the skip decision compares modulo \<open>2^32\<close>\<close>

text \<open>
  C10. Over a \<^verbatim>\<open>bytes.Reader\<close> that holds a frame of length \<open>L\<close>: \<^verbatim>\<open>Read\<close> discards the
  frame and reports \<open>ErrTargetBufferTooSmall\<close> exactly when \<open>L\<close> exceeds the length of the
  caller's buffer reduced modulo \<open>2^32\<close>, and delivers the payload otherwise; for a buffer of
  \<open>2^32\<close> bytes or more the payload of the discarded frame would have fit in the buffer.
\<close>

theorem Read_skip_decision_mod:
  assumes "length payload = unat L"
  shows "Read bytes_Reader_Read p (PutUint32 L @ payload @ rest) =
           Some (if length p mod 2 ^ 32 < unat L
                 then (0, Some ErrTargetBufferTooSmall, p, rest)
                 else (unat L, (if payload @ rest = [] then Some EOF else None),
                       payload @ drop (unat L) p, rest)) \<and>
         (2 ^ 32 \<le> length p \<longrightarrow> length payload \<le> length p)"
proof -
  have "unat L < 2 ^ 32" using unsigned_less [of L] by simp
  with assms show ?thesis
    by (auto simp add: Read_bytes_Reader_frame)
qed

text \<open>
  A buffer of \<open>2^32\<close> bytes and a 1-byte frame.
\<close>

theorem Read_skip_decision_mod_witness:
  "length [7 :: byte] = unat (1 :: uint32) \<and>
   2 ^ 32 \<le> length (replicate 4294967296 (0 :: byte)) \<and>
   length [7 :: byte] \<le> length (replicate 4294967296 (0 :: byte)) \<and>
   Read bytes_Reader_Read (replicate 4294967296 0) [1, 0, 0, 0, 7]
     = Some (0, Some ErrTargetBufferTooSmall, replicate 4294967296 0, [])"
  using Read_skip_decision_mod [of "[7]" 1 "replicate 4294967296 0" "[]"]
  by (simp add: PutUint32_def)

end
